theory Spec2Isabelle
  imports Main
begin

section \<open>Page-context state of the injected script\<close>

text \<open>
  The injected script keeps its state in two closure variables: the map
  \<open>loggedEvents\<close> (event key to the time of the last accepted signal) and the object
  \<open>locationTracking\<close>. Times are the values of \<open>Date.now()\<close>, integers of
  milliseconds. Every \<open>CustomEvent\<close> handed to \<open>window.dispatchEvent\<close> is recorded, in
  order, in the field \<open>dispatched\<close>: it is the observable output of the script.
  The counter \<open>callbackCount\<close> is local to each call of the \<open>watchPosition\<close> wrapper;
  \<open>watchCounts\<close> holds one counter per such call, in the order of the calls.
\<close>

record detail =
  permissionType :: string
  action :: string

record page_state =
  loggedEvents :: "string \<rightharpoonup> int"
  lastLogTime :: int
  activeWatchers :: "int set"
  isUnloading :: bool
  lastVisibilityChange :: int
  watchCounts :: "nat list"
  dispatched :: "detail list"

definition DEBOUNCE_TIME :: int where
  "DEBOUNCE_TIME = 500"

definition MIN_LOG_INTERVAL :: int where
  "MIN_LOG_INTERVAL = 5000"

definition initial_state :: page_state where
  "initial_state =
     \<lparr>loggedEvents = Map.empty, lastLogTime = 0, activeWatchers = {},
      isUnloading = False, lastVisibilityChange = 0, watchCounts = [],
      dispatched = []\<rparr>"

section \<open>The deduplication system\<close>

definition eventKey :: "string \<Rightarrow> string \<Rightarrow> string" where
  "eventKey p a = p @ ''-'' @ a"

text \<open>The early return of \<open>notifyPermissionUsage\<close>: the key is in the map and its time is
  less than \<open>DEBOUNCE_TIME\<close> before \<open>now\<close>.\<close>

definition isDuplicate :: "(string \<rightharpoonup> int) \<Rightarrow> string \<Rightarrow> int \<Rightarrow> bool" where
  "isDuplicate m k now =
     (case m k of None \<Rightarrow> False | Some t \<Rightarrow> now - t < DEBOUNCE_TIME)"

text \<open>The loop that deletes every entry with \<open>now - timestamp > 5000\<close>.\<close>

definition cleanOld :: "(string \<rightharpoonup> int) \<Rightarrow> int \<Rightarrow> (string \<rightharpoonup> int)" where
  "cleanOld m now =
     (\<lambda>k. case m k of None \<Rightarrow> None
          | Some timestamp \<Rightarrow> if now - timestamp > 5000 then None else Some timestamp)"

text \<open>The detail of the dispatched event: \<open>action || 'accessed'\<close>.\<close>

definition mkDetail :: "string \<Rightarrow> string \<Rightarrow> detail" where
  "mkDetail p a = \<lparr>permissionType = p, action = (if a = [] then ''accessed'' else a)\<rparr>"

text \<open>\<open>notifyPermissionUsage(permissionType, action)\<close>; \<open>now\<close> is the value its own
  \<open>Date.now()\<close> returns.\<close>

definition notifyPermissionUsage :: "page_state \<Rightarrow> string \<Rightarrow> string \<Rightarrow> int \<Rightarrow> page_state" where
  "notifyPermissionUsage s p a now =
     (if isDuplicate (loggedEvents s) (eventKey p a) now then s
      else s\<lparr>loggedEvents := cleanOld ((loggedEvents s)(eventKey p a \<mapsto> now)) now,
             dispatched := dispatched s @ [mkDetail p a]\<rparr>)"

text \<open>For the comparison of claim C9 only: \<open>notifyPermissionUsage\<close> with its purge
  loop removed. Nothing else differs.\<close>

definition notifyPermissionUsage_nopurge ::
    "page_state \<Rightarrow> string \<Rightarrow> string \<Rightarrow> int \<Rightarrow> page_state" where
  "notifyPermissionUsage_nopurge s p a now =
     (if isDuplicate (loggedEvents s) (eventKey p a) now then s
      else s\<lparr>loggedEvents := (loggedEvents s)(eventKey p a \<mapsto> now),
             dispatched := dispatched s @ [mkDetail p a]\<rparr>)"

text \<open>A raw signal is one call \<open>notifyPermissionUsage(permissionType, action)\<close> together
  with the time its \<open>Date.now()\<close> reads. \<open>feed\<close> runs a sequence of them; \<open>decisions\<close>
  lists, signal by signal, whether the early return was not taken.\<close>

type_synonym raw_signal = "string \<times> string \<times> int"

fun feed :: "page_state \<Rightarrow> raw_signal list \<Rightarrow> page_state" where
  "feed s [] = s"
| "feed s ((p, a, now) # sigs) = feed (notifyPermissionUsage s p a now) sigs"

fun decisions :: "page_state \<Rightarrow> raw_signal list \<Rightarrow> bool list" where
  "decisions s [] = []"
| "decisions s ((p, a, now) # sigs) =
     (\<not> isDuplicate (loggedEvents s) (eventKey p a) now)
       # decisions (notifyPermissionUsage s p a now) sigs"

fun feed_nopurge :: "page_state \<Rightarrow> raw_signal list \<Rightarrow> page_state" where
  "feed_nopurge s [] = s"
| "feed_nopurge s ((p, a, now) # sigs) =
     feed_nopurge (notifyPermissionUsage_nopurge s p a now) sigs"

fun decisions_nopurge :: "page_state \<Rightarrow> raw_signal list \<Rightarrow> bool list" where
  "decisions_nopurge s [] = []"
| "decisions_nopurge s ((p, a, now) # sigs) =
     (\<not> isDuplicate (loggedEvents s) (eventKey p a) now)
       # decisions_nopurge (notifyPermissionUsage_nopurge s p a now) sigs"

section \<open>Camera and microphone\<close>

text \<open>
  The outcome of a wrapped host operation is a parameter of its wrapper: \<open>Inl err\<close> when
  the promise rejects or the call throws, \<open>Inr v\<close> when it yields \<open>v\<close>. A wrapper returns
  the new page state and what its caller observes. Each call of
  \<open>notifyPermissionUsage\<close> reads the clock itself, so a wrapper takes one time per call.
\<close>

record constraints =
  video :: bool
  audio :: bool

definition wantsVideo :: "constraints option \<Rightarrow> bool" where
  "wantsVideo c = (case c of None \<Rightarrow> False | Some c' \<Rightarrow> video c')"

definition wantsAudio :: "constraints option \<Rightarrow> bool" where
  "wantsAudio c = (case c of None \<Rightarrow> False | Some c' \<Rightarrow> audio c')"

definition notifyMedia :: "page_state \<Rightarrow> constraints option \<Rightarrow> int \<Rightarrow> int \<Rightarrow> page_state" where
  "notifyMedia s c t1 t2 =
     (let s1 = (if wantsVideo c then notifyPermissionUsage s ''camera'' ''active'' t1 else s)
      in if wantsAudio c then notifyPermissionUsage s1 ''microphone'' ''active'' t2 else s1)"

definition getUserMedia ::
    "page_state \<Rightarrow> constraints option \<Rightarrow> 'e + 'stream \<Rightarrow> int \<Rightarrow> int \<Rightarrow> page_state \<times> ('e + 'stream)" where
  "getUserMedia s c outcome t1 t2 =
     (case outcome of
        Inl err \<Rightarrow> (s, Inl err)
      | Inr stream \<Rightarrow> (notifyMedia s c t1 t2, Inr stream))"

text \<open>The legacy \<open>navigator.getUserMedia\<close>: the error callback is handed to the host
  as it is, the success callback is wrapped.\<close>

definition legacyGetUserMedia ::
    "page_state \<Rightarrow> constraints option \<Rightarrow> 'e + 'stream \<Rightarrow> int \<Rightarrow> int \<Rightarrow> page_state \<times> ('e + 'stream)" where
  "legacyGetUserMedia s c outcome t1 t2 =
     (case outcome of
        Inl err \<Rightarrow> (s, Inl err)
      | Inr stream \<Rightarrow> (notifyMedia s c t1 t2, Inr stream))"

text \<open>The patched \<open>track.stop\<close> and the \<open>ended\<close> listener of a track of kind \<open>kind\<close>.\<close>

definition trackStopped :: "page_state \<Rightarrow> string \<Rightarrow> int \<Rightarrow> page_state" where
  "trackStopped s kind now =
     notifyPermissionUsage s (if kind = ''video'' then ''camera'' else ''microphone'')
       ''stopped'' now"

section \<open>Geolocation\<close>

text \<open>The success callback that the \<open>getCurrentPosition\<close> wrapper hands to the host.
  \<open>now\<close> is the callback's own clock read, \<open>nnow\<close> the one inside
  \<open>notifyPermissionUsage\<close>. The caller's \<open>successCallback\<close> is called with the position
  on every path.\<close>

definition getCurrentPosition_success :: "page_state \<Rightarrow> int \<Rightarrow> int \<Rightarrow> page_state" where
  "getCurrentPosition_success s now nnow =
     (if isUnloading s then s
      else
        let timeSinceLastLog = now - lastLogTime s;
            timeSinceVisibilityChange = now - lastVisibilityChange s
        in if timeSinceVisibilityChange < 2000 \<and> lastVisibilityChange s > 0 then s
           else if timeSinceLastLog = now \<or> timeSinceLastLog \<ge> MIN_LOG_INTERVAL
             then (notifyPermissionUsage s ''location'' ''accessed'' nnow)\<lparr>lastLogTime := now\<rparr>
             else s)"

definition getCurrentPosition ::
    "page_state \<Rightarrow> 'e + 'pos \<Rightarrow> int \<Rightarrow> int \<Rightarrow> page_state \<times> ('e + 'pos)" where
  "getCurrentPosition s outcome now nnow =
     (case outcome of
        Inl err \<Rightarrow> (s, Inl err)
      | Inr position \<Rightarrow> (getCurrentPosition_success s now nnow, Inr position))"

text \<open>The success callback of one \<open>watchPosition\<close> call; \<open>callbackCount\<close> is the value
  of that call's counter before the callback, and the new value is returned with the
  state.\<close>

definition watchPosition_success ::
    "page_state \<Rightarrow> nat \<Rightarrow> int \<Rightarrow> int \<Rightarrow> page_state \<times> nat" where
  "watchPosition_success s callbackCount now nnow =
     (if isUnloading s then (s, callbackCount)
      else
        let callbackCount' = callbackCount + 1;
            timeSinceLastLog = now - lastLogTime s;
            timeSinceVisibilityChange = now - lastVisibilityChange s
        in if timeSinceVisibilityChange < 2000 \<and> lastVisibilityChange s > 0
             then (s, callbackCount')
           else if callbackCount' = 1 \<or> timeSinceLastLog \<ge> MIN_LOG_INTERVAL
             then ((notifyPermissionUsage s ''location'' ''accessed'' nnow)\<lparr>lastLogTime := now\<rparr>,
                   callbackCount')
             else (s, callbackCount'))"

text \<open>One callback of the host for a \<open>watchPosition\<close> call: the error callback is the
  caller's own, the success callback is the wrapped one.\<close>

definition watchPosition_callback ::
    "page_state \<Rightarrow> nat \<Rightarrow> 'e + 'pos \<Rightarrow> int \<Rightarrow> int \<Rightarrow> (page_state \<times> nat) \<times> ('e + 'pos)" where
  "watchPosition_callback s callbackCount outcome now nnow =
     (case outcome of
        Inl err \<Rightarrow> ((s, callbackCount), Inl err)
      | Inr position \<Rightarrow> (watchPosition_success s callbackCount now nnow, Inr position))"

text \<open>The \<open>watchPosition\<close> wrapper itself: a fresh counter, and the id the host returned
  joins \<open>activeWatchers\<close>.\<close>

definition watchPosition :: "page_state \<Rightarrow> int \<Rightarrow> page_state \<times> int" where
  "watchPosition s watchId =
     (s\<lparr>watchCounts := watchCounts s @ [0],
        activeWatchers := insert watchId (activeWatchers s)\<rparr>, watchId)"

text \<open>A success callback of the \<open>w\<close>-th \<open>watchPosition\<close> call.\<close>

definition watchCallback :: "page_state \<Rightarrow> nat \<Rightarrow> int \<Rightarrow> int \<Rightarrow> page_state" where
  "watchCallback s w now nnow =
     (if w < length (watchCounts s)
      then (case watchPosition_success s (watchCounts s ! w) now nnow of
              (s', c) \<Rightarrow> s'\<lparr>watchCounts := (watchCounts s')[w := c]\<rparr>)
      else s)"

text \<open>\<open>clearWatch\<close>: \<open>originalClearWatch\<close> is the host's function.\<close>

definition clearWatch :: "page_state \<Rightarrow> int \<Rightarrow> (int \<Rightarrow> 'r) \<Rightarrow> page_state \<times> 'r" where
  "clearWatch s watchId originalClearWatch =
     (s\<lparr>activeWatchers := activeWatchers s - {watchId}\<rparr>, originalClearWatch watchId)"

definition beforeunload :: "page_state \<Rightarrow> page_state" where
  "beforeunload s = s\<lparr>isUnloading := True\<rparr>"

definition pagehide :: "page_state \<Rightarrow> page_state" where
  "pagehide s = s\<lparr>isUnloading := True\<rparr>"

text \<open>The \<open>visibilitychange\<close> listener; \<open>visible\<close> is
  \<open>document.visibilityState === 'visible'\<close>.\<close>

definition visibilitychange :: "page_state \<Rightarrow> bool \<Rightarrow> int \<Rightarrow> page_state" where
  "visibilitychange s visible now =
     (if visible then s\<lparr>lastVisibilityChange := now\<rparr> else s)"

section \<open>Clipboard\<close>

datatype 'a js_value = Undefined | Null | Value 'a

definition clipboard_readText ::
    "page_state \<Rightarrow> 'e + string js_value \<Rightarrow> int \<Rightarrow> page_state \<times> ('e + string js_value)" where
  "clipboard_readText s outcome now =
     (case outcome of
        Inl err \<Rightarrow> (s, Inl err)
      | Inr text \<Rightarrow>
          ((if text \<noteq> Undefined \<and> text \<noteq> Null
            then notifyPermissionUsage s ''clipboard-read'' ''accessed'' now else s),
           Inr text))"

text \<open>\<open>clipboardItems && clipboardItems.length > 0\<close>: an array is truthy, also when
  it is empty.\<close>

definition hasItems :: "'i list js_value \<Rightarrow> bool" where
  "hasItems clipboardItems =
     (case clipboardItems of Value xs \<Rightarrow> length xs > 0 | _ \<Rightarrow> False)"

definition clipboard_read ::
    "page_state \<Rightarrow> 'e + 'i list js_value \<Rightarrow> int \<Rightarrow> page_state \<times> ('e + 'i list js_value)" where
  "clipboard_read s outcome now =
     (case outcome of
        Inl err \<Rightarrow> (s, Inl err)
      | Inr clipboardItems \<Rightarrow>
          ((if hasItems clipboardItems
            then notifyPermissionUsage s ''clipboard-read'' ''accessed'' now else s),
           Inr clipboardItems))"

definition clipboard_writeText ::
    "page_state \<Rightarrow> 'e + unit \<Rightarrow> int \<Rightarrow> page_state \<times> ('e + unit)" where
  "clipboard_writeText s outcome now =
     (case outcome of
        Inl err \<Rightarrow> (s, Inl err)
      | Inr u \<Rightarrow> (notifyPermissionUsage s ''clipboard-write'' ''accessed'' now, Inr ()))"

definition clipboard_write ::
    "page_state \<Rightarrow> 'e + unit \<Rightarrow> int \<Rightarrow> page_state \<times> ('e + unit)" where
  "clipboard_write s outcome now =
     (case outcome of
        Inl err \<Rightarrow> (s, Inl err)
      | Inr u \<Rightarrow> (notifyPermissionUsage s ''clipboard-write'' ''accessed'' now, Inr ()))"

section \<open>Notifications\<close>

text \<open>The replacement constructor: it notifies first, then returns what
  \<open>new OriginalNotification(title, options)\<close> yields, a thrown error included.\<close>

definition Notification ::
    "page_state \<Rightarrow> ('t \<Rightarrow> 'o \<Rightarrow> 'e + 'n) \<Rightarrow> 't \<Rightarrow> 'o \<Rightarrow> int \<Rightarrow> page_state \<times> ('e + 'n)" where
  "Notification s OriginalNotification title options now =
     (notifyPermissionUsage s ''notifications'' ''shown'' now,
      OriginalNotification title options)"

section \<open>Runs of a page\<close>

text \<open>Everything that can happen to the page state, one constructor per listener or
  wrapped callback. \<open>Signal\<close> stands for a call of \<open>notifyPermissionUsage\<close> made by a
  media, clipboard or notification wrapper.\<close>

datatype page_event =
    BeforeUnload
  | PageHide
  | VisibilityChange bool int
  | OneShotSuccess int int
  | WatchStart int
  | WatchSuccess nat int int
  | ClearWatch int
  | Signal string string int

fun step :: "page_state \<Rightarrow> page_event \<Rightarrow> page_state" where
  "step s BeforeUnload = beforeunload s"
| "step s PageHide = pagehide s"
| "step s (VisibilityChange visible now) = visibilitychange s visible now"
| "step s (OneShotSuccess now nnow) = getCurrentPosition_success s now nnow"
| "step s (WatchStart watchId) = fst (watchPosition s watchId)"
| "step s (WatchSuccess w now nnow) = watchCallback s w now nnow"
| "step s (ClearWatch watchId) = fst (clearWatch s watchId (\<lambda>_. ()))"
| "step s (Signal p a now) = notifyPermissionUsage s p a now"

definition run :: "page_state \<Rightarrow> page_event list \<Rightarrow> page_state" where
  "run s evs = foldl step s evs"

section \<open>The log store of the background worker\<close>

record log_entry = detail +
  entry_id :: string
  timestamp :: string
  dateFormatted :: string
  domain :: string
  url :: string
  metadata :: "(string \<times> string) list"
  pageTitle :: string
  isVisible :: bool






section \<open>Sample values and proof devices\<close>

text \<open>A host constructor that throws, and a log entry, for the concrete runs below.\<close>

definition throwingConstructor :: "string \<Rightarrow> unit \<Rightarrow> string + unit" where
  "throwingConstructor title options = Inl ''TypeError''"


text \<open>How the state with the purge (\<open>s\<close>) relates to the state without it (\<open>t\<close>) when
  no clock read so far exceeded \<open>b\<close>: the same events, and an entry missing from \<open>s\<close> is
  more than 5000 ms older than \<open>b\<close> in \<open>t\<close>.\<close>

definition purge_sim :: "int \<Rightarrow> page_state \<Rightarrow> page_state \<Rightarrow> bool" where
  "purge_sim b s t =
     (dispatched s = dispatched t \<and>
      (\<forall>k. loggedEvents s k = loggedEvents t k
           \<or> (loggedEvents s k = None \<and> (\<exists>ts. loggedEvents t k = Some ts \<and> b - ts > 5000))))"

section \<open>Properties of the generic rule\<close>

lemma cleanOld_fresh: "cleanOld (m(k \<mapsto> now)) now k = Some now"
  by (simp add: cleanOld_def)

lemma notify_rejected: "isDuplicate (loggedEvents s) (eventKey p a) now \<Longrightarrow>
    notifyPermissionUsage s p a now = s"
  by (simp add: notifyPermissionUsage_def)

lemma notify_accepted_dispatched: "\<not> isDuplicate (loggedEvents s) (eventKey p a) now \<Longrightarrow>
    dispatched (notifyPermissionUsage s p a now) = dispatched s @ [mkDetail p a]"
  by (simp add: notifyPermissionUsage_def)

lemma notify_accepted_recorded: "\<not> isDuplicate (loggedEvents s) (eventKey p a) now \<Longrightarrow>
    loggedEvents (notifyPermissionUsage s p a now) (eventKey p a) = Some now"
  by (simp add: notifyPermissionUsage_def cleanOld_fresh)

lemma isDuplicate_recorded: "m k = Some t \<Longrightarrow> isDuplicate m k now = (now - t < 500)"
  by (simp add: isDuplicate_def DEBOUNCE_TIME_def)

lemma notify_other_key:
  assumes "eventKey p a \<noteq> k" "b \<le> now"
    and "loggedEvents s k = Some T0 \<or> (loggedEvents s k = None \<and> b - T0 > 5000)"
  shows "loggedEvents (notifyPermissionUsage s p a now) k = Some T0
    \<or> (loggedEvents (notifyPermissionUsage s p a now) k = None \<and> now - T0 > 5000)"
proof (cases "isDuplicate (loggedEvents s) (eventKey p a) now")
  case True
  then show ?thesis using assms by (auto simp: notifyPermissionUsage_def)
next
  case False
  then show ?thesis using assms
    by (cases "now - T0 > 5000") (auto simp: notifyPermissionUsage_def cleanOld_def)
qed

lemma feed_other_keys:
  assumes "\<forall>(p, a, now) \<in> set mid. eventKey p a \<noteq> k"
    and "sorted (b # map (\<lambda>(p, a, now). now) mid @ [T])"
    and "loggedEvents s k = Some T0 \<or> (loggedEvents s k = None \<and> b - T0 > 5000)"
  shows "isDuplicate (loggedEvents (feed s mid)) k T = (T - T0 < 500)"
  using assms
proof (induction mid arbitrary: s b)
  case Nil
  then show ?case by (auto simp: isDuplicate_def DEBOUNCE_TIME_def)
next
  case (Cons x mid)
  obtain p a now where x: "x = (p, a, now)" by (cases x) auto
  have key: "eventKey p a \<noteq> k" and rest: "\<forall>(p, a, now) \<in> set mid. eventKey p a \<noteq> k"
    using Cons.prems(1) x by auto
  have le: "b \<le> now" and srt: "sorted (now # map (\<lambda>(p, a, now). now) mid @ [T])"
    using Cons.prems(2) x by auto
  have inv: "loggedEvents (notifyPermissionUsage s p a now) k = Some T0
      \<or> (loggedEvents (notifyPermissionUsage s p a now) k = None \<and> now - T0 > 5000)"
    using key le Cons.prems(3) by (rule notify_other_key)
  show ?case using Cons.IH [OF rest srt inv] x by simp
qed

text \<open>
  Claim C1. Two signals with the same key (any permission type and action) are handed
  to \<open>notifyPermissionUsage\<close> one after the other, at times \<open>T0\<close> and \<open>T\<close>, and the first
  is accepted. Then the first dispatches one event and records \<open>T0\<close> for the key. If
  \<open>T - T0 < 500\<close> the second is rejected: it dispatches nothing and changes nothing, so
  exactly one event was emitted. If \<open>T - T0 \<ge> 500\<close> the second is accepted too: a second
  event is dispatched and the recorded time becomes \<open>T\<close>. The decision on the second
  signal is the same when signals \<open>mid\<close> of other keys come in between, as long as the
  clock reads do not decrease.
\<close>

theorem generic_debounce_rule:
  assumes "\<not> isDuplicate (loggedEvents s) (eventKey p a) T0"
  shows "dispatched (notifyPermissionUsage s p a T0) = dispatched s @ [mkDetail p a]
    \<and> loggedEvents (notifyPermissionUsage s p a T0) (eventKey p a) = Some T0
    \<and> (T - T0 < 500 \<longrightarrow>
         notifyPermissionUsage (notifyPermissionUsage s p a T0) p a T
           = notifyPermissionUsage s p a T0)
    \<and> (T - T0 \<ge> 500 \<longrightarrow>
         dispatched (notifyPermissionUsage (notifyPermissionUsage s p a T0) p a T)
           = dispatched s @ [mkDetail p a, mkDetail p a]
         \<and> loggedEvents (notifyPermissionUsage (notifyPermissionUsage s p a T0) p a T)
             (eventKey p a) = Some T)
    \<and> ((\<forall>(p', a', now') \<in> set mid. eventKey p' a' \<noteq> eventKey p a)
          \<and> sorted (T0 # map (\<lambda>(p', a', now'). now') mid @ [T]) \<longrightarrow>
         isDuplicate (loggedEvents (feed (notifyPermissionUsage s p a T0) mid)) (eventKey p a) T
           = (T - T0 < 500))"
proof -
  let ?s1 = "notifyPermissionUsage s p a T0"
  have rec: "loggedEvents ?s1 (eventKey p a) = Some T0"
    using assms by (rule notify_accepted_recorded)
  have d1: "dispatched ?s1 = dispatched s @ [mkDetail p a]"
    using assms by (rule notify_accepted_dispatched)
  have dup: "isDuplicate (loggedEvents ?s1) (eventKey p a) T = (T - T0 < 500)"
    using rec by (rule isDuplicate_recorded)
  have near: "T - T0 < 500 \<longrightarrow> notifyPermissionUsage ?s1 p a T = ?s1"
    using dup notify_rejected by blast
  have far: "T - T0 \<ge> 500 \<longrightarrow>
      dispatched (notifyPermissionUsage ?s1 p a T) = dispatched s @ [mkDetail p a, mkDetail p a]
      \<and> loggedEvents (notifyPermissionUsage ?s1 p a T) (eventKey p a) = Some T"
  proof
    assume "T - T0 \<ge> 500"
    then have nd: "\<not> isDuplicate (loggedEvents ?s1) (eventKey p a) T"
      using dup by simp
    show "dispatched (notifyPermissionUsage ?s1 p a T) = dispatched s @ [mkDetail p a, mkDetail p a]
      \<and> loggedEvents (notifyPermissionUsage ?s1 p a T) (eventKey p a) = Some T"
      using notify_accepted_dispatched [OF nd] notify_accepted_recorded [OF nd] d1 by simp
  qed
  have between: "isDuplicate (loggedEvents (feed ?s1 mid)) (eventKey p a) T = (T - T0 < 500)"
    if "\<forall>(p', a', now') \<in> set mid. eventKey p' a' \<noteq> eventKey p a"
      and "sorted (T0 # map (\<lambda>(p', a', now'). now') mid @ [T])"
    using that(1) that(2) by (rule feed_other_keys) (simp add: rec)
  show ?thesis using rec d1 near far between by blast
qed

theorem generic_debounce_rule_witness:
  "dispatched (notifyPermissionUsage
       (notifyPermissionUsage initial_state ''notifications'' ''shown'' 1000)
       ''notifications'' ''shown'' 1100)
     = [mkDetail ''notifications'' ''shown'']
   \<and> dispatched (notifyPermissionUsage
       (notifyPermissionUsage initial_state ''notifications'' ''shown'' 1000)
       ''notifications'' ''shown'' 1500)
     = [mkDetail ''notifications'' ''shown'', mkDetail ''notifications'' ''shown'']
   \<and> isDuplicate
        (loggedEvents (feed (notifyPermissionUsage initial_state ''notifications'' ''shown'' 1000)
           [(''camera'', ''active'', 1050)]))
        (eventKey ''notifications'' ''shown'') 1100"
proof -
  have h: "\<not> isDuplicate (loggedEvents initial_state) (eventKey ''notifications'' ''shown'') 1000"
    by (simp add: isDuplicate_def initial_state_def)
  have d0: "dispatched initial_state = []"
    by (simp add: initial_state_def)
  have other: "\<forall>(p', a', now') \<in> set [(''camera'', ''active'', 1050::int)].
      eventKey p' a' \<noteq> eventKey ''notifications'' ''shown''"
    by (simp add: eventKey_def)
  have srt: "sorted (1000 # map (\<lambda>(p', a', now'). now') [(''camera'', ''active'', 1050::int)]
      @ [1100])"
    by simp
  note th1 = generic_debounce_rule [OF h, of 1100 "[(''camera'', ''active'', 1050)]"]
  note th2 = generic_debounce_rule [OF h, of 1500 "[]"]
  have a: "dispatched (notifyPermissionUsage
       (notifyPermissionUsage initial_state ''notifications'' ''shown'' 1000)
       ''notifications'' ''shown'' 1100) = dispatched initial_state @ [mkDetail ''notifications'' ''shown'']"
    using th1 by simp
  have b: "dispatched (notifyPermissionUsage
       (notifyPermissionUsage initial_state ''notifications'' ''shown'' 1000)
       ''notifications'' ''shown'' 1500)
     = dispatched initial_state @ [mkDetail ''notifications'' ''shown'', mkDetail ''notifications'' ''shown'']"
    using th2 by simp
  have c: "isDuplicate
        (loggedEvents (feed (notifyPermissionUsage initial_state ''notifications'' ''shown'' 1000)
           [(''camera'', ''active'', 1050)]))
        (eventKey ''notifications'' ''shown'') 1100"
    using th1 other srt by simp
  show ?thesis using a b c d0 by simp
qed

section \<open>The location rule\<close>

lemma oneShot_accept:
  "\<not> isUnloading s \<Longrightarrow>
   \<not> (now - lastVisibilityChange s < 2000 \<and> lastVisibilityChange s > 0) \<Longrightarrow>
   lastLogTime s = 0 \<or> now - lastLogTime s \<ge> 5000 \<Longrightarrow>
   getCurrentPosition_success s now nnow
     = (notifyPermissionUsage s ''location'' ''accessed'' nnow)\<lparr>lastLogTime := now\<rparr>"
  by (auto simp: getCurrentPosition_success_def MIN_LOG_INTERVAL_def Let_def)

lemma oneShot_reject:
  "isUnloading s \<or> (now - lastVisibilityChange s < 2000 \<and> lastVisibilityChange s > 0)
     \<or> \<not> (lastLogTime s = 0 \<or> now - lastLogTime s \<ge> 5000) \<Longrightarrow>
   getCurrentPosition_success s now nnow = s"
  by (auto simp: getCurrentPosition_success_def MIN_LOG_INTERVAL_def Let_def)

lemma watch_accept:
  "\<not> isUnloading s \<Longrightarrow>
   \<not> (now - lastVisibilityChange s < 2000 \<and> lastVisibilityChange s > 0) \<Longrightarrow>
   c = 0 \<or> now - lastLogTime s \<ge> 5000 \<Longrightarrow>
   watchPosition_success s c now nnow
     = ((notifyPermissionUsage s ''location'' ''accessed'' nnow)\<lparr>lastLogTime := now\<rparr>, c + 1)"
  by (auto simp: watchPosition_success_def MIN_LOG_INTERVAL_def Let_def)


lemma watch_reject_counted:
  "\<not> isUnloading s \<Longrightarrow> \<not> (c = 0 \<or> now - lastLogTime s \<ge> 5000) \<Longrightarrow>
   watchPosition_success s c now nnow = (s, c + 1)"
  by (auto simp: watchPosition_success_def MIN_LOG_INTERVAL_def Let_def)

lemma initial_fields:
  "\<not> isUnloading initial_state" "lastVisibilityChange initial_state = 0"
  "lastLogTime initial_state = 0" "dispatched initial_state = []"
  "loggedEvents initial_state = Map.empty"
  by (simp_all add: initial_state_def)

text \<open>
  Claim C2, as the code has it. Take a location success callback that neither the
  unloading flag nor the visibility window suppresses. A one-shot callback is accepted
  (the signal \<open>location\<close>/\<open>accessed\<close> goes to \<open>notifyPermissionUsage\<close> and \<open>lastLogTime\<close>
  becomes the callback's clock read \<open>now\<close>) if and only if no location signal has been
  accepted on the page so far (\<open>lastLogTime\<close> is still 0) or \<open>now - lastLogTime \<ge> 5000\<close>;
  otherwise the state is unchanged. A watch callback is accepted if and only if it is
  the first counted callback of its watch (the counter becomes 1) or
  \<open>now - lastLogTime \<ge> 5000\<close>; otherwise only its counter changes. In particular a
  one-shot callback that is the first location callback of the page is accepted at
  any time.
\<close>

theorem location_acceptance_rule:
  assumes "\<not> isUnloading s"
    and "\<not> (now - lastVisibilityChange s < 2000 \<and> lastVisibilityChange s > 0)"
  shows "(lastLogTime s = 0 \<or> now - lastLogTime s \<ge> 5000 \<longrightarrow>
            getCurrentPosition_success s now nnow
              = (notifyPermissionUsage s ''location'' ''accessed'' nnow)\<lparr>lastLogTime := now\<rparr>
            \<and> lastLogTime (getCurrentPosition_success s now nnow) = now)
     \<and> (\<not> (lastLogTime s = 0 \<or> now - lastLogTime s \<ge> 5000) \<longrightarrow>
            getCurrentPosition_success s now nnow = s)
     \<and> (c = 0 \<or> now - lastLogTime s \<ge> 5000 \<longrightarrow>
            watchPosition_success s c now nnow
              = ((notifyPermissionUsage s ''location'' ''accessed'' nnow)\<lparr>lastLogTime := now\<rparr>,
                 c + 1)
            \<and> lastLogTime (fst (watchPosition_success s c now nnow)) = now)
     \<and> (\<not> (c = 0 \<or> now - lastLogTime s \<ge> 5000) \<longrightarrow>
            watchPosition_success s c now nnow = (s, c + 1))
     \<and> getCurrentPosition_success initial_state now nnow
          = (notifyPermissionUsage initial_state ''location'' ''accessed'' nnow)
              \<lparr>lastLogTime := now\<rparr>
     \<and> dispatched (getCurrentPosition_success initial_state now nnow)
          = [mkDetail ''location'' ''accessed'']"
proof -
  have first: "getCurrentPosition_success initial_state now nnow
      = (notifyPermissionUsage initial_state ''location'' ''accessed'' nnow)\<lparr>lastLogTime := now\<rparr>"
    by (rule oneShot_accept) (simp_all add: initial_fields)
  have "\<not> isDuplicate (loggedEvents initial_state) (eventKey ''location'' ''accessed'') nnow"
    by (simp add: isDuplicate_def initial_fields)
  then have ev: "dispatched (getCurrentPosition_success initial_state now nnow)
      = [mkDetail ''location'' ''accessed'']"
    using first by (simp add: notify_accepted_dispatched initial_fields)
  show ?thesis
    using oneShot_accept [OF assms, of nnow] watch_accept [OF assms, of c nnow]
      oneShot_reject [of s now nnow] watch_reject_counted [OF assms(1), of c now nnow]
      first ev
    by simp
qed

theorem location_acceptance_rule_witness:
  "getCurrentPosition_success
      (getCurrentPosition_success initial_state 1700000000000 1700000000000)
      1700000002000 1700000002000
     = getCurrentPosition_success initial_state 1700000000000 1700000000000
   \<and> lastLogTime (getCurrentPosition_success
        (getCurrentPosition_success initial_state 1700000000000 1700000000000)
        1700000005000 1700000005000) = 1700000005000
   \<and> lastLogTime (fst (watchPosition_success
        (getCurrentPosition_success initial_state 1700000000000 1700000000000)
        0 1700000002000 1700000002000)) = 1700000002000
   \<and> watchPosition_success
        (getCurrentPosition_success initial_state 1700000000000 1700000000000)
        1 1700000002000 1700000002000
       = (getCurrentPosition_success initial_state 1700000000000 1700000000000, 2)"
proof -
  let ?s = "getCurrentPosition_success initial_state 1700000000000 1700000000000"
  have f: "\<not> isUnloading ?s" "lastVisibilityChange ?s = 0" "lastLogTime ?s = 1700000000000"
    by (simp_all add: getCurrentPosition_success_def initial_state_def
          notifyPermissionUsage_def Let_def)
  have h1: "\<not> (1700000002000 - lastVisibilityChange ?s < 2000 \<and> lastVisibilityChange ?s > 0)"
    and h2: "\<not> (1700000005000 - lastVisibilityChange ?s < 2000 \<and> lastVisibilityChange ?s > 0)"
    using f by simp_all
  show ?thesis
    using location_acceptance_rule [OF f(1) h1, of 1700000002000 0]
      location_acceptance_rule [OF f(1) h1, of 1700000002000 1]
      location_acceptance_rule [OF f(1) h2, of 1700000005000 0] f(3)
    by simp
qed

text \<open>
  The claim as it is written fails: a watch is started and its first callback is
  accepted; one second later the first one-shot callback of the page arrives, with
  no unloading and no visibility change. It is the first callback ever of a one-shot
  query, and the 500 ms rule would let it pass, yet the location rule drops it: no
  second event, and \<open>lastLogTime\<close> keeps the time of the watch callback.
\<close>

theorem first_one_shot_after_watch_counterexample:
  "\<not> isUnloading (run initial_state [WatchStart 7, WatchSuccess 0 1700000000000 1700000000000])
   \<and> lastVisibilityChange
        (run initial_state [WatchStart 7, WatchSuccess 0 1700000000000 1700000000000]) = 0
   \<and> dispatched (run initial_state [WatchStart 7, WatchSuccess 0 1700000000000 1700000000000])
       = [mkDetail ''location'' ''accessed'']
   \<and> dispatched (run initial_state [WatchStart 7, WatchSuccess 0 1700000000000 1700000000000,
        OneShotSuccess 1700000001000 1700000001000])
       = [mkDetail ''location'' ''accessed'']
   \<and> lastLogTime (run initial_state [WatchStart 7, WatchSuccess 0 1700000000000 1700000000000,
        OneShotSuccess 1700000001000 1700000001000])
       = 1700000000000"
  by (simp add: run_def initial_state_def watchPosition_def watchCallback_def
        watchPosition_success_def getCurrentPosition_success_def MIN_LOG_INTERVAL_def
        notifyPermissionUsage_def isDuplicate_def Let_def)

section \<open>Page teardown and cancelled watches\<close>

lemma step_keeps_unloading: "isUnloading s \<Longrightarrow> isUnloading (step s e)"
  by (cases e)
     (simp_all add: beforeunload_def pagehide_def visibilitychange_def
        getCurrentPosition_success_def watchPosition_def watchCallback_def
        watchPosition_success_def clearWatch_def notifyPermissionUsage_def)

lemma run_keeps_unloading: "isUnloading s \<Longrightarrow> isUnloading (run s evs)"
  unfolding run_def
  by (induction evs arbitrary: s) (simp_all add: step_keeps_unloading)

lemma oneShot_unloading: "isUnloading s \<Longrightarrow> getCurrentPosition_success s now nnow = s"
  by (simp add: getCurrentPosition_success_def)

lemma watch_unloading: "isUnloading s \<Longrightarrow> watchPosition_success s c now nnow = (s, c)"
  by (simp add: watchPosition_success_def)

lemma watchCallback_unloading: "isUnloading s \<Longrightarrow> watchCallback s w now nnow = s"
  by (simp add: watchCallback_def watch_unloading)

text \<open>
  Claim C5. The listeners of \<open>beforeunload\<close> and \<open>pagehide\<close> set \<open>isUnloading\<close>, and
  nothing the page can do afterwards clears it: it is still set after every run
  \<open>evs\<close> of listeners and callbacks. In every such state a location success callback,
  one-shot or of a watch with any counter, at any time, returns the state as it is
  (the watch does not even count the callback): no event, whatever the first-callback
  or 5000 ms conditions say.
\<close>

theorem unloading_is_final:
  "isUnloading (beforeunload s) \<and> isUnloading (pagehide s)
   \<and> (isUnloading s \<longrightarrow>
        isUnloading (run s evs)
        \<and> getCurrentPosition_success (run s evs) now nnow = run s evs
        \<and> watchPosition_success (run s evs) c now nnow = (run s evs, c)
        \<and> step (run s evs) (OneShotSuccess now nnow) = run s evs
        \<and> step (run s evs) (WatchSuccess w now nnow) = run s evs)"
proof -
  have flag: "isUnloading (beforeunload s) \<and> isUnloading (pagehide s)"
    by (simp add: beforeunload_def pagehide_def)
  have "isUnloading (run s evs)" if "isUnloading s"
    using that by (rule run_keeps_unloading)
  then show ?thesis
    using flag oneShot_unloading watch_unloading watchCallback_unloading by simp
qed

theorem unloading_is_final_witness:
  "isUnloading (run (beforeunload initial_state)
      [VisibilityChange True 1700000000000, WatchStart 7, Signal ''camera'' ''active'' 1700000001000])
   \<and> step (run (beforeunload initial_state)
      [VisibilityChange True 1700000000000, WatchStart 7, Signal ''camera'' ''active'' 1700000001000])
      (WatchSuccess 0 1700000009000 1700000009000)
     = run (beforeunload initial_state)
      [VisibilityChange True 1700000000000, WatchStart 7, Signal ''camera'' ''active'' 1700000001000]"
proof -
  have un: "isUnloading (beforeunload initial_state)"
    by (simp add: beforeunload_def)
  show ?thesis
    using unloading_is_final [of "beforeunload initial_state"
        "[VisibilityChange True 1700000000000, WatchStart 7,
          Signal ''camera'' ''active'' 1700000001000]"] un
    by simp
qed

lemma notify_watchers:
  "notifyPermissionUsage (s\<lparr>activeWatchers := A\<rparr>) p a now
     = (notifyPermissionUsage s p a now)\<lparr>activeWatchers := A\<rparr>"
  by (simp add: notifyPermissionUsage_def)

lemma oneShot_watchers:
  "getCurrentPosition_success (s\<lparr>activeWatchers := A\<rparr>) now nnow
     = (getCurrentPosition_success s now nnow)\<lparr>activeWatchers := A\<rparr>"
  by (simp add: getCurrentPosition_success_def notify_watchers Let_def)

lemma watch_watchers:
  "watchPosition_success (s\<lparr>activeWatchers := A\<rparr>) c now nnow
     = (case watchPosition_success s c now nnow of (s', c') \<Rightarrow> (s'\<lparr>activeWatchers := A\<rparr>, c'))"
  by (simp add: watchPosition_success_def notify_watchers Let_def)

lemma step_watchers:
  "\<exists>B. step (s\<lparr>activeWatchers := A\<rparr>) e = (step s e)\<lparr>activeWatchers := B\<rparr>"
proof (cases e)
  case (WatchSuccess w now nnow)
  then show ?thesis
    by (cases "watchPosition_success s (watchCounts s ! w) now nnow")
       (auto simp: watchCallback_def watch_watchers intro: exI [of _ A])
next
  case (WatchStart i)
  then show ?thesis
    by (auto simp: watchPosition_def intro!: exI [of _ "insert i A"])
next
  case (ClearWatch i)
  then show ?thesis
    by (auto simp: clearWatch_def intro!: exI [of _ "A - {i}"])
qed (auto simp: beforeunload_def pagehide_def visibilitychange_def oneShot_watchers
       notify_watchers intro: exI [of _ A])

lemma run_watchers:
  "\<exists>B. run (s\<lparr>activeWatchers := A\<rparr>) evs = (run s evs)\<lparr>activeWatchers := B\<rparr>"
proof (induction evs arbitrary: s A)
  case Nil
  show ?case by (auto simp: run_def)
next
  case (Cons e evs)
  obtain B where B: "step (s\<lparr>activeWatchers := A\<rparr>) e = (step s e)\<lparr>activeWatchers := B\<rparr>"
    using step_watchers by blast
  obtain C where C: "run ((step s e)\<lparr>activeWatchers := B\<rparr>) evs
      = (run (step s e) evs)\<lparr>activeWatchers := C\<rparr>"
    using Cons.IH by blast
  have "run (s\<lparr>activeWatchers := A\<rparr>) (e # evs) = (run s (e # evs))\<lparr>activeWatchers := C\<rparr>"
    using B C by (simp add: run_def)
  then show ?case by blast
qed

text \<open>
  Claim C6. \<open>clearWatch\<close> removes the id from \<open>activeWatchers\<close> and returns what the
  host's \<open>clearWatch\<close> returns. In any state, so also right after an accepted signal, it
  dispatches no event and leaves the debounce map and \<open>lastLogTime\<close> alone; and the
  events of any later run \<open>evs\<close> are the ones the page would have dispatched without
  the call.
\<close>

theorem clearWatch_silent:
  "clearWatch s watchId originalClearWatch
     = (s\<lparr>activeWatchers := activeWatchers s - {watchId}\<rparr>, originalClearWatch watchId)
   \<and> dispatched (fst (clearWatch s watchId originalClearWatch)) = dispatched s
   \<and> loggedEvents (fst (clearWatch s watchId originalClearWatch)) = loggedEvents s
   \<and> lastLogTime (fst (clearWatch s watchId originalClearWatch)) = lastLogTime s
   \<and> dispatched (run (fst (clearWatch s watchId originalClearWatch)) evs) = dispatched (run s evs)"
proof -
  obtain B where "run (s\<lparr>activeWatchers := activeWatchers s - {watchId}\<rparr>) evs
      = (run s evs)\<lparr>activeWatchers := B\<rparr>"
    using run_watchers by blast
  then show ?thesis by (simp add: clearWatch_def)
qed

section \<open>Location signals and the generic rule\<close>




section \<open>Rejected signals\<close>




section \<open>The purge of old entries\<close>

lemma purge_sim_dup:
  assumes "purge_sim b s t" "b \<le> now"
  shows "isDuplicate (loggedEvents s) k now = isDuplicate (loggedEvents t) k now"
proof -
  from assms(1) have "loggedEvents s k = loggedEvents t k
      \<or> (loggedEvents s k = None \<and> (\<exists>ts. loggedEvents t k = Some ts \<and> b - ts > 5000))"
    by (simp add: purge_sim_def)
  then show ?thesis
    using assms(2) by (auto simp: isDuplicate_def DEBOUNCE_TIME_def)
qed

lemma cleanOld_sim:
  assumes "ms k = mt k \<or> (ms k = None \<and> (\<exists>ts. mt k = Some ts \<and> b - ts > 5000))"
    and "b \<le> now"
  shows "cleanOld (ms(key \<mapsto> now)) now k = (mt(key \<mapsto> now)) k
    \<or> (cleanOld (ms(key \<mapsto> now)) now k = None
        \<and> (\<exists>ts. (mt(key \<mapsto> now)) k = Some ts \<and> now - ts > 5000))"
proof (cases "k = key")
  case True
  then show ?thesis by (simp add: cleanOld_def)
next
  case False
  show ?thesis
  proof (cases "mt k")
    case None
    then show ?thesis using assms False by (auto simp: cleanOld_def)
  next
    case (Some ts)
    show ?thesis
    proof (cases "ms k")
      case None
      then show ?thesis using assms Some False by (auto simp: cleanOld_def)
    next
      case (Some ts')
      then have "ts' = ts" using assms(1) \<open>mt k = Some ts\<close> by auto
      then show ?thesis using Some \<open>mt k = Some ts\<close> False
        by (cases "now - ts > 5000") (simp_all add: cleanOld_def)
    qed
  qed
qed

lemma purge_sim_step:
  assumes "purge_sim b s t" "b \<le> now"
  shows "purge_sim now (notifyPermissionUsage s p a now) (notifyPermissionUsage_nopurge t p a now)"
proof (cases "isDuplicate (loggedEvents s) (eventKey p a) now")
  case True
  then have "isDuplicate (loggedEvents t) (eventKey p a) now"
    using purge_sim_dup [OF assms] by simp
  then show ?thesis
    using True assms
    by (fastforce simp: notifyPermissionUsage_def notifyPermissionUsage_nopurge_def purge_sim_def)
next
  case False
  then have nd: "\<not> isDuplicate (loggedEvents t) (eventKey p a) now"
    using purge_sim_dup [OF assms] by simp
  have pt: "loggedEvents s k = loggedEvents t k
      \<or> (loggedEvents s k = None \<and> (\<exists>ts. loggedEvents t k = Some ts \<and> b - ts > 5000))" for k
    using assms(1) by (simp add: purge_sim_def)
  have d: "dispatched s = dispatched t"
    using assms(1) by (simp add: purge_sim_def)
  have "cleanOld ((loggedEvents s)(eventKey p a \<mapsto> now)) now k
        = ((loggedEvents t)(eventKey p a \<mapsto> now)) k
      \<or> (cleanOld ((loggedEvents s)(eventKey p a \<mapsto> now)) now k = None
          \<and> (\<exists>ts. ((loggedEvents t)(eventKey p a \<mapsto> now)) k = Some ts \<and> now - ts > 5000))" for k
    using pt [of k] assms(2) by (rule cleanOld_sim)
  then show ?thesis
    using False nd d
    by (simp add: notifyPermissionUsage_def notifyPermissionUsage_nopurge_def purge_sim_def)
qed

lemma purge_sim_run:
  "purge_sim b s t \<Longrightarrow> sorted (b # map (\<lambda>(p, a, now). now) sigs) \<Longrightarrow>
   decisions s sigs = decisions_nopurge t sigs
   \<and> dispatched (feed s sigs) = dispatched (feed_nopurge t sigs)"
proof (induction sigs arbitrary: b s t)
  case Nil
  then show ?case by (simp add: purge_sim_def)
next
  case (Cons x sigs)
  obtain p a now where x: "x = (p, a, now)" by (cases x) auto
  have le: "b \<le> now" using Cons.prems(2) x by simp
  have srt: "sorted (now # map (\<lambda>(p, a, now). now) sigs)" using Cons.prems(2) x by simp
  have sim: "purge_sim now (notifyPermissionUsage s p a now) (notifyPermissionUsage_nopurge t p a now)"
    using Cons.prems(1) le by (rule purge_sim_step)
  show ?case
    using Cons.IH [OF sim srt] purge_sim_dup [OF Cons.prems(1) le] x by simp
qed

text \<open>
  Claim C9, as the code has it. Raw signals arrive from the start of the page and
  the clock reads of \<open>notifyPermissionUsage\<close> never go backwards. Then every signal
  gets the same decision, and the same events are dispatched, whether or not the
  purge loop runs.
\<close>

theorem purge_irrelevant:
  assumes "sorted (map (\<lambda>(p, a, now). now) sigs)"
  shows "decisions initial_state sigs = decisions_nopurge initial_state sigs
    \<and> dispatched (feed initial_state sigs) = dispatched (feed_nopurge initial_state sigs)"
proof (cases sigs)
  case Nil
  then show ?thesis by simp
next
  case (Cons x xs)
  obtain p a now where x: "x = (p, a, now)" by (cases x) auto
  have "purge_sim now initial_state initial_state"
    by (simp add: purge_sim_def)
  moreover have "sorted (now # map (\<lambda>(p, a, now). now) sigs)"
    using assms Cons x by simp
  ultimately show ?thesis by (rule purge_sim_run)
qed

theorem purge_irrelevant_witness:
  "decisions initial_state
      [(''camera'', ''active'', 1700000000000), (''microphone'', ''active'', 1700000006000),
       (''camera'', ''active'', 1700000006100)]
     = decisions_nopurge initial_state
      [(''camera'', ''active'', 1700000000000), (''microphone'', ''active'', 1700000006000),
       (''camera'', ''active'', 1700000006100)]"
  using purge_irrelevant
      [of "[(''camera'', ''active'', 1700000000000), (''microphone'', ''active'', 1700000006000),
            (''camera'', ''active'', 1700000006100)]"]
  by simp

text \<open>
  The claim as it is written, for every sequence, fails when the clock is set back
  between two signals: the camera signal at the first time is accepted, a microphone
  signal 6000 ms later purges its entry, and a camera signal whose clock read is only
  100 ms after the first is then accepted with the purge and rejected without it.
\<close>

theorem purge_clock_set_back_counterexample:
  "decisions initial_state
      [(''camera'', ''active'', 1700000000000), (''microphone'', ''active'', 1700000006000),
       (''camera'', ''active'', 1700000000100)] = [True, True, True]
   \<and> decisions_nopurge initial_state
      [(''camera'', ''active'', 1700000000000), (''microphone'', ''active'', 1700000006000),
       (''camera'', ''active'', 1700000000100)] = [True, True, False]"
  by (simp add: initial_state_def notifyPermissionUsage_def notifyPermissionUsage_nopurge_def
        isDuplicate_def cleanOld_def eventKey_def DEBOUNCE_TIME_def)

section \<open>Failing host operations\<close>

text \<open>
  Claim C3, as the code has it. When the wrapped operation of the media, geolocation
  or clipboard wrappers fails, the page state is unchanged (no event) and the caller
  gets the same error. The \<open>Notification\<close> wrapper returns whatever the host
  constructor yields, a thrown error included, but it has handed the signal
  \<open>notifications\<close>/\<open>shown\<close> to \<open>notifyPermissionUsage\<close> before it calls the constructor.
\<close>

theorem failure_passes_through:
  "getUserMedia s c (Inl err) t1 t2 = (s, Inl err)
   \<and> legacyGetUserMedia s c (Inl err) t1 t2 = (s, Inl err)
   \<and> getCurrentPosition s (Inl err) now nnow = (s, Inl err)
   \<and> watchPosition_callback s callbackCount (Inl err) now nnow = ((s, callbackCount), Inl err)
   \<and> clipboard_readText s (Inl err) now = (s, Inl err)
   \<and> clipboard_read s (Inl err) now = (s, Inl err)
   \<and> clipboard_writeText s (Inl err) now = (s, Inl err)
   \<and> clipboard_write s (Inl err) now = (s, Inl err)
   \<and> snd (Notification s OriginalNotification title options now)
       = OriginalNotification title options"
  by (simp add: getUserMedia_def legacyGetUserMedia_def getCurrentPosition_def
        watchPosition_callback_def clipboard_readText_def clipboard_read_def
        clipboard_writeText_def clipboard_write_def Notification_def)

text \<open>
  The claim as it is written fails for the \<open>Notification\<close> wrapper: on a fresh page,
  a constructor call that throws has dispatched one event.
\<close>

theorem notification_throws_counterexample:
  "snd (Notification initial_state throwingConstructor ''hello'' () 1700000000000)
     = Inl ''TypeError''
   \<and> dispatched (fst (Notification initial_state throwingConstructor ''hello'' () 1700000000000))
     = [\<lparr>permissionType = ''notifications'', action = ''shown''\<rparr>]"
  by (simp add: Notification_def throwingConstructor_def notifyPermissionUsage_def
        initial_state_def isDuplicate_def mkDetail_def)

section \<open>Clipboard reads\<close>

text \<open>
  Claim C4, as the code has it. \<open>readText\<close> that resolves with \<open>undefined\<close> or \<open>null\<close>
  hands no signal over; resolving with any string, the empty one included, it hands
  over one \<open>clipboard-read\<close>/\<open>accessed\<close> signal. \<open>read\<close> hands no signal over for
  \<open>undefined\<close>, \<open>null\<close> or an empty array, and one for a non-empty array. The resolved
  value reaches the caller as it is. The one signal dispatches exactly one event
  unless the 500 ms rule rejects it, and then it changes nothing.
\<close>

theorem clipboard_read_rule:
  "clipboard_readText s (Inr Undefined :: 'e + string js_value) now = (s, Inr Undefined)
   \<and> clipboard_readText s (Inr Null :: 'e + string js_value) now = (s, Inr Null)
   \<and> clipboard_readText s (Inr (Value text) :: 'e + string js_value) now
       = (notifyPermissionUsage s ''clipboard-read'' ''accessed'' now, Inr (Value text))
   \<and> clipboard_read s (Inr Undefined :: 'e + 'i list js_value) now = (s, Inr Undefined)
   \<and> clipboard_read s (Inr Null :: 'e + 'i list js_value) now = (s, Inr Null)
   \<and> clipboard_read s (Inr (Value []) :: 'e + 'i list js_value) now = (s, Inr (Value []))
   \<and> (items \<noteq> [] \<longrightarrow>
        clipboard_read s (Inr (Value items) :: 'e + 'i list js_value) now
          = (notifyPermissionUsage s ''clipboard-read'' ''accessed'' now, Inr (Value items)))
   \<and> (\<not> isDuplicate (loggedEvents s) (eventKey ''clipboard-read'' ''accessed'') now \<longrightarrow>
        dispatched (notifyPermissionUsage s ''clipboard-read'' ''accessed'' now)
          = dispatched s @ [\<lparr>permissionType = ''clipboard-read'', action = ''accessed''\<rparr>])
   \<and> (isDuplicate (loggedEvents s) (eventKey ''clipboard-read'' ''accessed'') now \<longrightarrow>
        notifyPermissionUsage s ''clipboard-read'' ''accessed'' now = s)"
  by (simp add: clipboard_readText_def clipboard_read_def hasItems_def
        notifyPermissionUsage_def mkDetail_def)

theorem clipboard_read_rule_witness:
  "clipboard_read initial_state (Inr (Value [''item'']) :: string + string list js_value)
      1700000000000
     = (notifyPermissionUsage initial_state ''clipboard-read'' ''accessed'' 1700000000000,
        Inr (Value [''item'']))
   \<and> dispatched (notifyPermissionUsage initial_state ''clipboard-read'' ''accessed'' 1700000000000)
     = [\<lparr>permissionType = ''clipboard-read'', action = ''accessed''\<rparr>]
   \<and> notifyPermissionUsage
        (notifyPermissionUsage initial_state ''clipboard-read'' ''accessed'' 1700000000000)
        ''clipboard-read'' ''accessed'' 1700000000200
     = notifyPermissionUsage initial_state ''clipboard-read'' ''accessed'' 1700000000000"
proof -
  have nd: "\<not> isDuplicate (loggedEvents initial_state)
      (eventKey ''clipboard-read'' ''accessed'') 1700000000000"
    by (simp add: isDuplicate_def initial_fields)
  have dup: "isDuplicate
      (loggedEvents (notifyPermissionUsage initial_state ''clipboard-read'' ''accessed''
         1700000000000))
      (eventKey ''clipboard-read'' ''accessed'') 1700000000200"
    by (simp add: notifyPermissionUsage_def initial_state_def isDuplicate_def cleanOld_def
          DEBOUNCE_TIME_def)
  note th1 = clipboard_read_rule [where ?'e = string and ?'i = string,
      of initial_state 1700000000000 "''text''" "[''item'']"]
  note th2 = clipboard_read_rule
        [where ?'e = string and ?'i = string,
          of "notifyPermissionUsage initial_state ''clipboard-read'' ''accessed'' 1700000000000"
          1700000000200 "''text''" "[''item'']"]
  have a: "clipboard_read initial_state (Inr (Value [''item'']) :: string + string list js_value)
      1700000000000
     = (notifyPermissionUsage initial_state ''clipboard-read'' ''accessed'' 1700000000000,
        Inr (Value [''item'']))"
    using th1 by simp
  have b: "dispatched (notifyPermissionUsage initial_state ''clipboard-read'' ''accessed''
        1700000000000)
     = dispatched initial_state @ [\<lparr>permissionType = ''clipboard-read'', action = ''accessed''\<rparr>]"
    using th1 nd by blast
  have c: "notifyPermissionUsage
        (notifyPermissionUsage initial_state ''clipboard-read'' ''accessed'' 1700000000000)
        ''clipboard-read'' ''accessed'' 1700000000200
     = notifyPermissionUsage initial_state ''clipboard-read'' ''accessed'' 1700000000000"
    using th2 dup by blast
  show ?thesis
    using a b c by (simp add: initial_fields)
qed

text \<open>
  The claim as it is written fails for an empty result of \<open>readText\<close>: on a fresh page,
  a read that resolves with the empty string dispatches one event.
\<close>

theorem empty_text_counterexample:
  "dispatched (fst (clipboard_readText initial_state (Inr (Value '''') :: string + string js_value)
      1700000000000))
     = [\<lparr>permissionType = ''clipboard-read'', action = ''accessed''\<rparr>]"
  by (simp add: clipboard_readText_def notifyPermissionUsage_def initial_state_def
        isDuplicate_def mkDetail_def)

section \<open>The bound of the log store\<close>






end
